theory Spec2Isabelle
  imports
    Main
    "HOL-Library.Char_ord"
    "HOL-Library.List_Lexorder"
    "HOL-Library.Multiset"
begin

section \<open>kubernetes-cloudflare-sync: the resync pass of main.go\<close>

text \<open>
  The development embeds the closure \<open>resync\<close> of \<open>main.go\<close> (lines 116-159) and
  \<open>nodeIsReady\<close> (lines 178-186). A Go \<open>string\<close> is a byte sequence, here a
  \<open>char list\<close>; Go compares strings byte by byte, which is the lexicographic order on
  \<open>char list\<close> over the order of characters by their byte value. A nil slice and an
  empty slice behave alike in every operation the code uses (\<open>range\<close>, \<open>len\<close>,
  \<open>append\<close>, \<open>sort.Strings\<close>, \<open>strings.Join\<close>), so both are the list \<open>[]\<close>.
\<close>

subsection \<open>Node objects (k8s.io/api/core/v1)\<close>

text \<open>
  \<open>NodeAddressType\<close>, \<open>NodeConditionType\<close> and \<open>ConditionStatus\<close> are string types
  of the Kubernetes API package; the constants below carry the values that package
  gives them.
\<close>

type_synonym NodeAddressType = string
type_synonym NodeConditionType = string
type_synonym ConditionStatus = string

definition NodeExternalIP :: NodeAddressType where
  "NodeExternalIP = ''ExternalIP''"

definition NodeInternalIP :: NodeAddressType where
  "NodeInternalIP = ''InternalIP''"

definition NodeReady :: NodeConditionType where
  "NodeReady = ''Ready''"

definition ConditionTrue :: ConditionStatus where
  "ConditionTrue = ''True''"

record NodeAddress =
  addr_Type :: NodeAddressType
  addr_Address :: string

record NodeCondition =
  cond_Type :: NodeConditionType
  cond_Status :: ConditionStatus

record NodeStatus =
  Conditions :: "NodeCondition list"
  Addresses :: "NodeAddress list"

record Node =
  Name :: string
  Status :: NodeStatus

subsection \<open>nodeIsReady\<close>

text \<open>
  The loop over \<open>node.Status.Conditions\<close> returns true at the first condition whose
  type is \<open>NodeReady\<close> and whose status is \<open>ConditionTrue\<close>, and false after the
  last one.
\<close>

fun conditionsReady :: "NodeCondition list \<Rightarrow> bool" where
  "conditionsReady [] = False"
| "conditionsReady (condition # rest) =
     (if cond_Type condition = NodeReady \<and> cond_Status condition = ConditionTrue
      then True
      else conditionsReady rest)"

definition nodeIsReady :: "Node \<Rightarrow> bool" where
  "nodeIsReady node = conditionsReady (Conditions (Status node))"

subsection \<open>The two collection loops of resync\<close>

text \<open>
  The inner loop appends to \<open>ips\<close> the address of every entry of
  \<open>node.Status.Addresses\<close> whose type is \<open>t\<close>; the outer loop runs it for every ready
  node. Both thread the slice \<open>ips\<close> through, as the code does with \<open>append\<close>.
\<close>

fun appendAddresses :: "NodeAddressType \<Rightarrow> NodeAddress list \<Rightarrow> string list \<Rightarrow> string list" where
  "appendAddresses t [] ips = ips"
| "appendAddresses t (addr # rest) ips =
     appendAddresses t rest (if addr_Type addr = t then ips @ [addr_Address addr] else ips)"

fun collectIPs :: "NodeAddressType \<Rightarrow> Node list \<Rightarrow> string list \<Rightarrow> string list" where
  "collectIPs t [] ips = ips"
| "collectIPs t (node # rest) ips =
     collectIPs t rest
       (if nodeIsReady node then appendAddresses t (Addresses (Status node)) ips else ips)"

record Options =
  UseInternalIP :: bool
  SkipExternalIP :: bool

text \<open>Lines 123-145: the slice \<open>ips\<close> before it is sorted.\<close>

definition gatherIPs :: "Options \<Rightarrow> Node list \<Rightarrow> string list" where
  "gatherIPs opts nodes =
     (let ips = [];
          ips = (if \<not> SkipExternalIP opts then collectIPs NodeExternalIP nodes ips else ips);
          ips = (if UseInternalIP opts \<and> length ips = 0
                 then collectIPs NodeInternalIP nodes ips else ips)
      in ips)"

text \<open>
  Lines 123-147. \<open>sort.Strings\<close> sorts in increasing byte-wise order; two strings that
  compare equal are the same string, so every sorting algorithm returns the same slice
  and \<open>sort\<close> stands for it.
\<close>

definition aggregate :: "Options \<Rightarrow> Node list \<Rightarrow> string list" where
  "aggregate opts nodes = sort (gatherIPs opts nodes)"

subsection \<open>strings.Join\<close>

fun Join :: "string list \<Rightarrow> string \<Rightarrow> string" where
  "Join [] sep = []"
| "Join [x] sep = x"
| "Join (x # y # ys) sep = x @ sep @ Join (y # ys) sep"

subsection \<open>One pass of resync\<close>

text \<open>
  \<open>error\<close> is the message of a Go error value. What the pass does to the outside is
  kept as a trace of events: the log lines it prints and the call of \<open>sync\<close> with its
  arguments. The only state that survives a pass is the variable \<open>lastIPs\<close>.
\<close>

type_synonym error = string

datatype Event =
    LogResyncing
  | LogFailedToListNodes error
  | LogIPs "string list"
  | LogNoChange
  | CallSync "string list" "string list" "string list" int bool
  | LogFailedToSync error

record Config =
  options :: Options
  dnsNames :: "string list"
  dnsRoots :: "string list"
  cloudflareTTL :: int
  cloudflareProxy :: bool

text \<open>
  What the collaborators answer during one pass: the two results of \<open>lister.List\<close>,
  and the error \<open>sync\<close> returns if the pass calls it (\<open>None\<close> is Go's nil error).
\<close>

record Pass =
  list_nodes :: "Node list"
  list_err :: "error option"
  sync_err :: "error option"

record State =
  lastIPs :: "string list"
  events :: "Event list"

definition emit :: "Event \<Rightarrow> State \<Rightarrow> State" where
  "emit e st = st\<lparr>events := events st @ [e]\<rparr>"

definition resync :: "Config \<Rightarrow> Pass \<Rightarrow> State \<Rightarrow> State" where
  "resync cfg pass st =
     (let st = emit LogResyncing st;
          nodes = list_nodes pass;
          st = (case list_err pass of
                  Some err \<Rightarrow> emit (LogFailedToListNodes err) st
                | None \<Rightarrow> st);
          ips = aggregate (options cfg) nodes;
          st = emit (LogIPs ips) st
      in if Join ips '','' = Join (lastIPs st) '',''
         then emit LogNoChange st
         else
           (let st = st\<lparr>lastIPs := ips\<rparr>;
                st = emit (CallSync ips (dnsNames cfg) (dnsRoots cfg)
                             (cloudflareTTL cfg) (cloudflareProxy cfg)) st
            in case sync_err pass of
                 Some err \<Rightarrow> emit (LogFailedToSync err) st
               | None \<Rightarrow> st))"

text \<open>
  The process starts with \<open>lastIPs\<close> nil and nothing done yet; every node event runs
  one pass, one after the other.
\<close>

definition initState :: State where
  "initState = \<lparr>lastIPs = [], events = []\<rparr>"

fun run :: "Config \<Rightarrow> Pass list \<Rightarrow> State \<Rightarrow> State" where
  "run cfg [] st = st"
| "run cfg (pass # rest) st = run cfg rest (resync cfg pass st)"

text \<open>The address lists \<open>sync\<close> was called with, in order of the calls.\<close>

fun syncCalls :: "Event list \<Rightarrow> string list list" where
  "syncCalls [] = []"
| "syncCalls (CallSync ips names roots ttl proxied # rest) = ips # syncCalls rest"
| "syncCalls (e # rest) = syncCalls rest"

subsection \<open>What the loops compute\<close>

text \<open>
  A closed form of the loops, used to state the properties: the addresses of type
  \<open>t\<close> that one node reports, and those of all ready nodes in node order.
\<close>

definition addressesOfType :: "NodeAddressType \<Rightarrow> Node \<Rightarrow> string list" where
  "addressesOfType t node =
     map addr_Address (filter (\<lambda>addr. addr_Type addr = t) (Addresses (Status node)))"

definition readyAddresses :: "NodeAddressType \<Rightarrow> Node list \<Rightarrow> string list" where
  "readyAddresses t nodes = concat (map (addressesOfType t) (filter nodeIsReady nodes))"

subsection \<open>The reconciliation plan\<close>

text \<open>
  Modelled from the spec: the function \<open>sync\<close> that \<open>resync\<close> calls is not part of
  \<open>main.go\<close>. The provider's interface and the plan follow sections 3, 4.3 and 6 of
  the specification: a provider record has an identity, a name, a content (the address),
  a ttl and a proxy flag.
\<close>

record ProviderRecord =
  rec_ID :: string
  rec_Name :: string
  rec_Content :: string
  rec_TTL :: int
  rec_Proxied :: bool

text \<open>
  Modelled from the spec: the provider operations \<open>DeleteRecord(zone, recordID)\<close>,
  \<open>CreateRecord(zone, name, content, ttl, proxied)\<close> and
  \<open>UpdateRecord(zone, recordID, content, ttl, proxied)\<close>.
\<close>

datatype Operation =
    DeleteRecord string string
  | CreateRecord string string string int bool
  | UpdateRecord string string string int bool

text \<open>Modelled from the spec: \<open>toCreate = desiredSet - existingContents\<close>.\<close>

definition toCreate :: "string list \<Rightarrow> ProviderRecord list \<Rightarrow> string list" where
  "toCreate desiredSet existing =
     filter (\<lambda>a. a \<notin> set (map rec_Content existing)) desiredSet"

text \<open>Modelled from the spec: \<open>toDelete = existingContents - desiredSet\<close>.\<close>

definition toDelete :: "string list \<Rightarrow> ProviderRecord list \<Rightarrow> ProviderRecord list" where
  "toDelete desiredSet existing =
     filter (\<lambda>r. rec_Content r \<notin> set desiredSet) existing"

text \<open>
  Modelled from the spec: \<open>toUpdate\<close> is the records present in both sets whose ttl or
  proxy flag differs from the configured values.
\<close>

definition toUpdate :: "string list \<Rightarrow> ProviderRecord list \<Rightarrow> int \<Rightarrow> bool \<Rightarrow> ProviderRecord list" where
  "toUpdate desiredSet existing ttl proxied =
     filter (\<lambda>r. rec_Content r \<in> set desiredSet \<and>
                  (rec_TTL r \<noteq> ttl \<or> rec_Proxied r \<noteq> proxied)) existing"

text \<open>
  Modelled from the spec: the plan for one name is applied in the order deletes, then
  creates, then metadata updates.
\<close>

definition reconcilePlan ::
  "string \<Rightarrow> string \<Rightarrow> string list \<Rightarrow> ProviderRecord list \<Rightarrow> int \<Rightarrow> bool \<Rightarrow> Operation list" where
  "reconcilePlan zone name desiredSet existing ttl proxied =
     map (\<lambda>r. DeleteRecord zone (rec_ID r)) (toDelete desiredSet existing) @
     map (\<lambda>a. CreateRecord zone name a ttl proxied) (toCreate desiredSet existing) @
     map (\<lambda>r. UpdateRecord zone (rec_ID r) (rec_Content r) ttl proxied)
       (toUpdate desiredSet existing ttl proxied)"

subsection \<open>Concrete nodes and configuration\<close>

text \<open>Small inputs on which the definitions are evaluated below.\<close>

definition externalAddr :: "string \<Rightarrow> NodeAddress" where
  "externalAddr a = \<lparr>addr_Type = NodeExternalIP, addr_Address = a\<rparr>"

definition internalAddr :: "string \<Rightarrow> NodeAddress" where
  "internalAddr a = \<lparr>addr_Type = NodeInternalIP, addr_Address = a\<rparr>"

definition readyNode :: "string \<Rightarrow> NodeAddress list \<Rightarrow> Node" where
  "readyNode name addrs =
     \<lparr>Name = name,
      Status = \<lparr>Conditions = [\<lparr>cond_Type = NodeReady, cond_Status = ConditionTrue\<rparr>],
                Addresses = addrs\<rparr>\<rparr>"

definition unreadyNode :: "string \<Rightarrow> NodeAddress list \<Rightarrow> Node" where
  "unreadyNode name addrs =
     \<lparr>Name = name,
      Status = \<lparr>Conditions = [\<lparr>cond_Type = NodeReady, cond_Status = ''False''\<rparr>],
                Addresses = addrs\<rparr>\<rparr>"

definition conditionlessNode :: "string \<Rightarrow> NodeAddress list \<Rightarrow> Node" where
  "conditionlessNode name addrs =
     \<lparr>Name = name, Status = \<lparr>Conditions = [], Addresses = addrs\<rparr>\<rparr>"

definition exampleConfig :: Config where
  "exampleConfig =
     \<lparr>options = \<lparr>UseInternalIP = False, SkipExternalIP = False\<rparr>,
      dnsNames = [''nodes.example.com''],
      dnsRoots = [''example.com''],
      cloudflareTTL = 120,
      cloudflareProxy = False\<rparr>"

definition fallbackOptions :: Options where
  "fallbackOptions = \<lparr>UseInternalIP = True, SkipExternalIP = False\<rparr>"

lemmas example_defs =
  externalAddr_def internalAddr_def readyNode_def unreadyNode_def conditionlessNode_def
  exampleConfig_def fallbackOptions_def NodeExternalIP_def NodeInternalIP_def
  NodeReady_def ConditionTrue_def

section \<open>Properties\<close>

subsection \<open>The loops in closed form\<close>

lemma appendAddresses_eq:
  "appendAddresses t addrs ips =
     ips @ map addr_Address (filter (\<lambda>addr. addr_Type addr = t) addrs)"
  by (induction addrs arbitrary: ips) simp_all

lemma collectIPs_eq: "collectIPs t nodes ips = ips @ readyAddresses t nodes"
  by (induction nodes arbitrary: ips)
     (simp_all add: readyAddresses_def addressesOfType_def appendAddresses_eq)

lemma gatherIPs_eq:
  "gatherIPs opts nodes =
     (if \<not> SkipExternalIP opts \<and> readyAddresses NodeExternalIP nodes \<noteq> []
      then readyAddresses NodeExternalIP nodes
      else if UseInternalIP opts then readyAddresses NodeInternalIP nodes
      else [])"
  by (simp add: gatherIPs_def collectIPs_eq Let_def)

lemma conditionsReady_iff:
  "conditionsReady conds \<longleftrightarrow>
     (\<exists>c \<in> set conds. cond_Type c = NodeReady \<and> cond_Status c = ConditionTrue)"
  by (induction conds) auto

lemma nodeIsReady_iff:
  "nodeIsReady node \<longleftrightarrow>
     (\<exists>c \<in> set (Conditions (Status node)).
        cond_Type c = NodeReady \<and> cond_Status c = ConditionTrue)"
  by (simp add: nodeIsReady_def conditionsReady_iff)

subsection \<open>Reordering the node list\<close>

lemma mset_readyAddresses:
  "mset (readyAddresses t nodes) =
     (\<Sum>node \<in># filter_mset nodeIsReady (mset nodes). mset (addressesOfType t node))"
  by (induction nodes) (simp_all add: readyAddresses_def)

lemma readyAddresses_perm:
  assumes "mset nodes = mset nodes'"
  shows "mset (readyAddresses t nodes) = mset (readyAddresses t nodes')"
  by (simp add: mset_readyAddresses assms)

lemma readyAddresses_empty_perm:
  assumes "mset nodes = mset nodes'"
  shows "readyAddresses t nodes = [] \<longleftrightarrow> readyAddresses t nodes' = []"
  using readyAddresses_perm [OF assms, of t] by (metis mset_zero_iff)

lemma mset_gatherIPs_perm:
  assumes "mset nodes = mset nodes'"
  shows "mset (gatherIPs opts nodes) = mset (gatherIPs opts nodes')"
  using readyAddresses_perm [OF assms] readyAddresses_empty_perm [OF assms]
  by (simp add: gatherIPs_eq)

lemma sort_cong_mset:
  fixes xs ys :: "'a::linorder list"
  assumes "mset xs = mset ys"
  shows "sort xs = sort ys"
  by (rule properties_for_sort) (simp_all add: assms)

text \<open>
  Claim C6. For any node list and any permutation of it (the same multiset of nodes),
  the aggregation step returns the identical address sequence.
\<close>

theorem C6_permutation_invariant:
  "mset nodes = mset nodes' \<Longrightarrow> aggregate opts nodes = aggregate opts nodes'"
  unfolding aggregate_def by (rule sort_cong_mset) (rule mset_gatherIPs_perm)

theorem C6_permutation_invariant_witness:
  "aggregate fallbackOptions
     [readyNode ''n1'' [externalAddr ''5.6.7.8''], readyNode ''n2'' [externalAddr ''1.2.3.4'']] =
   aggregate fallbackOptions
     [readyNode ''n2'' [externalAddr ''1.2.3.4''], readyNode ''n1'' [externalAddr ''5.6.7.8'']] \<and>
   aggregate fallbackOptions
     [readyNode ''n2'' [externalAddr ''1.2.3.4''], readyNode ''n1'' [externalAddr ''5.6.7.8'']] =
   [''1.2.3.4'', ''5.6.7.8'']"
proof -
  have perm:
    "mset [readyNode ''n1'' [externalAddr ''5.6.7.8''], readyNode ''n2'' [externalAddr ''1.2.3.4'']] =
     mset [readyNode ''n2'' [externalAddr ''1.2.3.4''], readyNode ''n1'' [externalAddr ''5.6.7.8'']]"
    by simp
  have val:
    "aggregate fallbackOptions
       [readyNode ''n2'' [externalAddr ''1.2.3.4''], readyNode ''n1'' [externalAddr ''5.6.7.8'']] =
     [''1.2.3.4'', ''5.6.7.8'']"
    by (simp add: aggregate_def gatherIPs_def nodeIsReady_def example_defs)
  show ?thesis
    using C6_permutation_invariant [OF perm, of fallbackOptions] val by simp
qed

subsection \<open>Sorting and duplicates\<close>

text \<open>
  Claim C2, as amended. The address list produced by the aggregation step is sorted
  lexicographically and is a rearrangement of the addresses collected from the ready
  nodes, one entry for each time an address was collected: the code sorts and never
  removes duplicates, so the list is free of duplicates exactly when the collected
  addresses are.
\<close>

theorem C2_aggregate_sorted_permutation:
  "sorted (aggregate opts nodes) \<and>
   mset (aggregate opts nodes) = mset (gatherIPs opts nodes) \<and>
   (distinct (aggregate opts nodes) \<longleftrightarrow> distinct (gatherIPs opts nodes))"
  by (simp add: aggregate_def)

text \<open>
  Claim C2 as stated fails: two ready nodes that report the same external address give
  a desired list that holds the address twice.
\<close>

theorem C2_duplicates_kept:
  "aggregate \<lparr>UseInternalIP = False, SkipExternalIP = False\<rparr>
     [readyNode ''n1'' [externalAddr ''1.2.3.4''],
      readyNode ''n2'' [externalAddr ''1.2.3.4'']] = [''1.2.3.4'', ''1.2.3.4''] \<and>
   \<not> distinct (aggregate \<lparr>UseInternalIP = False, SkipExternalIP = False\<rparr>
       [readyNode ''n1'' [externalAddr ''1.2.3.4''],
        readyNode ''n2'' [externalAddr ''1.2.3.4'']])"
  by (simp add: aggregate_def gatherIPs_def nodeIsReady_def example_defs)

subsection \<open>Fallback to internal addresses\<close>

text \<open>
  Claim C5. With useInternal true and skipExternal false, the desired set is built from
  the internal addresses of the ready nodes exactly when the collection of external
  addresses over all ready nodes is empty; otherwise it is built from the external
  addresses alone.
\<close>

theorem C5_internal_fallback:
  assumes "UseInternalIP opts" and "\<not> SkipExternalIP opts"
  shows "aggregate opts nodes =
     (if readyAddresses NodeExternalIP nodes = []
      then sort (readyAddresses NodeInternalIP nodes)
      else sort (readyAddresses NodeExternalIP nodes))"
  using assms by (simp add: aggregate_def gatherIPs_eq)

theorem C5_internal_fallback_witness:
  "aggregate fallbackOptions
     [readyNode ''n1'' [internalAddr ''10.0.0.1''],
      readyNode ''n2'' [internalAddr ''10.0.0.2'', externalAddr ''1.2.3.4'']] = [''1.2.3.4''] \<and>
   aggregate fallbackOptions
     [readyNode ''n1'' [internalAddr ''10.0.0.2''],
      unreadyNode ''n2'' [internalAddr ''10.0.0.3'', externalAddr ''1.2.3.4''],
      readyNode ''n3'' [internalAddr ''10.0.0.1'']] = [''10.0.0.1'', ''10.0.0.2'']"
proof -
  have opts: "UseInternalIP fallbackOptions" "\<not> SkipExternalIP fallbackOptions"
    by (simp_all add: fallbackOptions_def)
  show ?thesis
    using C5_internal_fallback [OF opts,
        of "[readyNode ''n1'' [internalAddr ''10.0.0.1''],
             readyNode ''n2'' [internalAddr ''10.0.0.2'', externalAddr ''1.2.3.4'']]"]
      C5_internal_fallback [OF opts,
        of "[readyNode ''n1'' [internalAddr ''10.0.0.2''],
             unreadyNode ''n2'' [internalAddr ''10.0.0.3'', externalAddr ''1.2.3.4''],
             readyNode ''n3'' [internalAddr ''10.0.0.1'']]"]
    by (simp add: readyAddresses_def addressesOfType_def nodeIsReady_def example_defs)
qed

subsection \<open>Readiness gating\<close>

lemma readyAddresses_drop_unready:
  assumes "\<not> nodeIsReady node"
  shows "readyAddresses t (before @ node # after) = readyAddresses t (before @ after)"
  using assms by (simp add: readyAddresses_def)

lemma aggregate_drop_unready:
  assumes "\<not> nodeIsReady node"
  shows "aggregate opts (before @ node # after) = aggregate opts (before @ after)"
  unfolding aggregate_def gatherIPs_eq readyAddresses_drop_unready [OF assms] ..

lemma mset_addressesOfType_le_readyAddresses:
  assumes "nodeIsReady node"
  shows "mset (addressesOfType t node) \<subseteq># mset (readyAddresses t (before @ node # after))"
  using assms by (simp add: readyAddresses_def)

lemma readyAddresses_nonempty:
  assumes "nodeIsReady node" and "addressesOfType t node \<noteq> []"
  shows "readyAddresses t (before @ node # after) \<noteq> []"
  using assms by (simp add: readyAddresses_def)

text \<open>
  Claim C7. A node with no condition of the ready type, or whose ready-type conditions
  are not true-valued, is not ready and contributes nothing: the desired set is the
  same as without the node, whatever addresses it carries. A ready node contributes
  every address it has of the selected type, with multiplicity: its external addresses
  when external addresses are not skipped, its internal addresses when the policy
  selects those (useInternal, and external addresses skipped or none collected).
\<close>

theorem C7_readiness_gating:
  "((\<forall>c \<in> set (Conditions (Status node)).
        cond_Type c = NodeReady \<longrightarrow> cond_Status c \<noteq> ConditionTrue) \<longrightarrow>
      \<not> nodeIsReady node \<and>
      aggregate opts (before @ node # after) = aggregate opts (before @ after)) \<and>
   (nodeIsReady node \<and> \<not> SkipExternalIP opts \<longrightarrow>
      mset (addressesOfType NodeExternalIP node) \<subseteq>#
        mset (aggregate opts (before @ node # after))) \<and>
   (nodeIsReady node \<and> UseInternalIP opts \<and>
      (SkipExternalIP opts \<or> readyAddresses NodeExternalIP (before @ node # after) = []) \<longrightarrow>
      mset (addressesOfType NodeInternalIP node) \<subseteq>#
        mset (aggregate opts (before @ node # after)))"
proof (intro conjI impI)
  assume "\<forall>c \<in> set (Conditions (Status node)).
        cond_Type c = NodeReady \<longrightarrow> cond_Status c \<noteq> ConditionTrue"
  then show unready: "\<not> nodeIsReady node"
    by (auto simp: nodeIsReady_iff)
  then show "aggregate opts (before @ node # after) = aggregate opts (before @ after)"
    by (rule aggregate_drop_unready)
next
  assume a: "nodeIsReady node \<and> \<not> SkipExternalIP opts"
  show "mset (addressesOfType NodeExternalIP node) \<subseteq>#
        mset (aggregate opts (before @ node # after))"
  proof (cases "addressesOfType NodeExternalIP node = []")
    case True
    then show ?thesis by simp
  next
    case False
    with a have "readyAddresses NodeExternalIP (before @ node # after) \<noteq> []"
      by (simp add: readyAddresses_nonempty)
    with a have "gatherIPs opts (before @ node # after) =
        readyAddresses NodeExternalIP (before @ node # after)"
      by (simp add: gatherIPs_eq)
    with a show ?thesis
      by (simp add: aggregate_def mset_addressesOfType_le_readyAddresses)
  qed
next
  assume a: "nodeIsReady node \<and> UseInternalIP opts \<and>
      (SkipExternalIP opts \<or> readyAddresses NodeExternalIP (before @ node # after) = [])"
  then have "gatherIPs opts (before @ node # after) =
        readyAddresses NodeInternalIP (before @ node # after)"
    by (auto simp: gatherIPs_eq)
  with a show "mset (addressesOfType NodeInternalIP node) \<subseteq>#
        mset (aggregate opts (before @ node # after))"
    by (simp add: aggregate_def mset_addressesOfType_le_readyAddresses)
qed


theorem C7_readiness_gating_witness:
  "aggregate fallbackOptions
     [readyNode ''n1'' [externalAddr ''1.2.3.4''],
      unreadyNode ''n2'' [externalAddr ''9.9.9.9'', internalAddr ''10.0.0.9'']] =
   aggregate fallbackOptions [readyNode ''n1'' [externalAddr ''1.2.3.4'']] \<and>
   aggregate fallbackOptions [conditionlessNode ''n0'' [externalAddr ''9.9.9.9'']] =
   aggregate fallbackOptions [] \<and>
   mset [''5.6.7.8'', ''1.2.3.4''] \<subseteq>#
     mset (aggregate fallbackOptions
       [readyNode ''n3'' [externalAddr ''5.6.7.8'', internalAddr ''10.0.0.1'',
                          externalAddr ''1.2.3.4'']]) \<and>
   mset [''10.0.0.2'', ''10.0.0.1''] \<subseteq>#
     mset (aggregate fallbackOptions
       [readyNode ''n4'' [internalAddr ''10.0.0.2'', internalAddr ''10.0.0.1'']])"
proof -
  have unready:
    "\<forall>c \<in> set (Conditions (Status (unreadyNode ''n2''
         [externalAddr ''9.9.9.9'', internalAddr ''10.0.0.9'']))).
       cond_Type c = NodeReady \<longrightarrow> cond_Status c \<noteq> ConditionTrue"
    by (simp add: unreadyNode_def ConditionTrue_def)
  have nocond:
    "\<forall>c \<in> set (Conditions (Status (conditionlessNode ''n0'' [externalAddr ''9.9.9.9'']))).
       cond_Type c = NodeReady \<longrightarrow> cond_Status c \<noteq> ConditionTrue"
    by (simp add: conditionlessNode_def)
  have ready3:
    "nodeIsReady (readyNode ''n3'' [externalAddr ''5.6.7.8'', internalAddr ''10.0.0.1'',
        externalAddr ''1.2.3.4'']) \<and> \<not> SkipExternalIP fallbackOptions"
    by (simp add: nodeIsReady_def readyNode_def fallbackOptions_def)
  have ready4:
    "nodeIsReady (readyNode ''n4'' [internalAddr ''10.0.0.2'', internalAddr ''10.0.0.1'']) \<and>
     UseInternalIP fallbackOptions \<and>
     (SkipExternalIP fallbackOptions \<or>
      readyAddresses NodeExternalIP
        ([] @ readyNode ''n4'' [internalAddr ''10.0.0.2'', internalAddr ''10.0.0.1''] # []) = [])"
    by (simp add: nodeIsReady_def readyAddresses_def addressesOfType_def example_defs)
  have ext3:
    "addressesOfType NodeExternalIP
       (readyNode ''n3'' [externalAddr ''5.6.7.8'', internalAddr ''10.0.0.1'',
          externalAddr ''1.2.3.4'']) = [''5.6.7.8'', ''1.2.3.4'']"
    by (simp add: addressesOfType_def example_defs)
  have int4:
    "addressesOfType NodeInternalIP
       (readyNode ''n4'' [internalAddr ''10.0.0.2'', internalAddr ''10.0.0.1'']) =
     [''10.0.0.2'', ''10.0.0.1'']"
    by (simp add: addressesOfType_def example_defs)
  have a: "aggregate fallbackOptions
     ([readyNode ''n1'' [externalAddr ''1.2.3.4'']] @
      unreadyNode ''n2'' [externalAddr ''9.9.9.9'', internalAddr ''10.0.0.9''] # []) =
     aggregate fallbackOptions ([readyNode ''n1'' [externalAddr ''1.2.3.4'']] @ [])"
    using C7_readiness_gating [THEN conjunct1, THEN mp, OF unready] by (rule conjunct2)
  have b: "aggregate fallbackOptions
     ([] @ conditionlessNode ''n0'' [externalAddr ''9.9.9.9''] # []) =
     aggregate fallbackOptions ([] @ [])"
    using C7_readiness_gating [THEN conjunct1, THEN mp, OF nocond] by (rule conjunct2)
  have c: "mset [''5.6.7.8'', ''1.2.3.4''] \<subseteq>#
     mset (aggregate fallbackOptions
       ([] @ readyNode ''n3'' [externalAddr ''5.6.7.8'', internalAddr ''10.0.0.1'',
                          externalAddr ''1.2.3.4''] # []))"
    using C7_readiness_gating [THEN conjunct2, THEN conjunct1, THEN mp, OF ready3,
        of "[]" "[]"]
    unfolding ext3 .
  have d: "mset [''10.0.0.2'', ''10.0.0.1''] \<subseteq>#
     mset (aggregate fallbackOptions
       ([] @ readyNode ''n4'' [internalAddr ''10.0.0.2'', internalAddr ''10.0.0.1''] # []))"
    using C7_readiness_gating [THEN conjunct2, THEN conjunct2, THEN mp, OF ready4]
    unfolding int4 .
  from a b c d show ?thesis
    by (simp only: append_Nil append_Cons append_Nil2 simp_thms)
qed

subsection \<open>Passes and reconciliation calls\<close>

lemma syncCalls_append: "syncCalls (xs @ ys) = syncCalls xs @ syncCalls ys"
  by (induction xs rule: syncCalls.induct) simp_all

lemma resync_unchanged:
  assumes "Join (aggregate (options cfg) (list_nodes pass)) '','' = Join (lastIPs st) '',''"
  shows "lastIPs (resync cfg pass st) = lastIPs st"
    and "syncCalls (events (resync cfg pass st)) = syncCalls (events st)"
    and "events (resync cfg pass st) =
           events st @ [LogResyncing] @
           (case list_err pass of Some err \<Rightarrow> [LogFailedToListNodes err] | None \<Rightarrow> []) @
           [LogIPs (aggregate (options cfg) (list_nodes pass)), LogNoChange]"
  using assms
  by (simp_all add: resync_def emit_def Let_def syncCalls_append split: option.splits)

lemma resync_changed:
  assumes "Join (aggregate (options cfg) (list_nodes pass)) '','' \<noteq> Join (lastIPs st) '',''"
  shows "lastIPs (resync cfg pass st) = aggregate (options cfg) (list_nodes pass)"
    and "syncCalls (events (resync cfg pass st)) =
           syncCalls (events st) @ [aggregate (options cfg) (list_nodes pass)]"
  using assms
  by (simp_all add: resync_def emit_def Let_def syncCalls_append split: option.splits)

lemma run_unchanged:
  assumes "\<forall>pass \<in> set passes.
      Join (aggregate (options cfg) (list_nodes pass)) '','' = Join (lastIPs st) '',''"
  shows "lastIPs (run cfg passes st) = lastIPs st \<and>
         syncCalls (events (run cfg passes st)) = syncCalls (events st)"
  using assms
proof (induction passes arbitrary: st)
  case Nil
  then show ?case by simp
next
  case (Cons pass passes)
  then have same: "Join (aggregate (options cfg) (list_nodes pass)) '','' = Join (lastIPs st) '',''"
    by simp
  have "\<forall>p \<in> set passes. Join (aggregate (options cfg) (list_nodes p)) '','' =
      Join (lastIPs (resync cfg pass st)) '',''"
    using Cons.prems by (simp add: resync_unchanged(1) [OF same])
  from Cons.IH [OF this] show ?case
    by (simp add: resync_unchanged(1,2) [OF same])
qed

text \<open>
  Claim C9. From process start, as long as every pass produces an empty desired set
  (in particular on the very first pass), the set compares equal to the initial empty
  stored set: \<open>sync\<close> is never called and the stored set stays empty, so no
  provider record is removed by these passes.
\<close>

theorem C9_first_empty_pass_skips_sync:
  assumes "\<forall>pass \<in> set passes. aggregate (options cfg) (list_nodes pass) = []"
  shows "syncCalls (events (run cfg passes initState)) = [] \<and>
         lastIPs (run cfg passes initState) = []"
proof -
  have "\<forall>pass \<in> set passes.
      Join (aggregate (options cfg) (list_nodes pass)) '','' = Join (lastIPs initState) '',''"
    using assms by (simp add: initState_def)
  from run_unchanged [OF this] show ?thesis
    by (simp add: initState_def)
qed

theorem C9_first_empty_pass_skips_sync_witness:
  "syncCalls (events (run exampleConfig
     [\<lparr>list_nodes = [], list_err = None, sync_err = None\<rparr>,
      \<lparr>list_nodes = [unreadyNode ''n1'' [externalAddr ''1.2.3.4'']],
       list_err = None, sync_err = None\<rparr>] initState)) = [] \<and>
   lastIPs (run exampleConfig
     [\<lparr>list_nodes = [], list_err = None, sync_err = None\<rparr>,
      \<lparr>list_nodes = [unreadyNode ''n1'' [externalAddr ''1.2.3.4'']],
       list_err = None, sync_err = None\<rparr>] initState) = []"
proof -
  have empty1: "aggregate (options exampleConfig) [] = []"
    by (simp add: aggregate_def gatherIPs_def)
  have empty2:
    "aggregate (options exampleConfig) [unreadyNode ''n1'' [externalAddr ''1.2.3.4'']] = []"
    by (simp add: aggregate_def gatherIPs_def nodeIsReady_def unreadyNode_def
        ConditionTrue_def)
  have "\<forall>pass \<in> set
      [\<lparr>list_nodes = [], list_err = None, sync_err = None\<rparr>,
       \<lparr>list_nodes = [unreadyNode ''n1'' [externalAddr ''1.2.3.4'']],
        list_err = None, sync_err = None\<rparr>].
      aggregate (options exampleConfig) (list_nodes pass) = []"
    using empty1 empty2 by simp
  then show ?thesis
    by (rule C9_first_empty_pass_skips_sync)
qed

subsection \<open>A pass in closed form\<close>

lemma comma_split_unique:
  assumes "c \<notin> set x" and "c \<notin> set y" and "x @ [c] @ r = y @ [c] @ s"
  shows "x = y \<and> r = s"
  using assms
proof (induction x arbitrary: y)
  case Nil
  then show ?case by (cases y) auto
next
  case (Cons a x)
  then show ?case by (cases y) auto
qed

lemma Join_inject:
  assumes "\<forall>x \<in> set xs. x \<noteq> [] \<and> c \<notin> set x"
    and "\<forall>y \<in> set ys. y \<noteq> [] \<and> c \<notin> set y"
    and "Join xs [c] = Join ys [c]"
  shows "xs = ys"
  using assms
proof (induction xs arbitrary: ys rule: induct_list012)
  case 1
  then show ?case
    by (cases ys rule: remdups_adj.cases) simp_all
next
  case (2 x)
  show ?case
  proof (cases ys rule: remdups_adj.cases)
    case 1
    with "2.prems" show ?thesis by simp
  next
    case (2 y)
    with "2.prems" show ?thesis by simp
  next
    case (3 y y' ys')
    with "2.prems" have "x = y @ [c] @ Join (y' # ys') [c]" and "c \<notin> set x"
      by simp_all
    then have False by auto
    then show ?thesis ..
  qed
next
  case (3 x x' xs)
  show ?case
  proof (cases ys rule: remdups_adj.cases)
    case 1
    with "3.prems" show ?thesis by simp
  next
    case (2 y)
    with "3.prems" have "y = x @ [c] @ Join (x' # xs) [c]" and "c \<notin> set y"
      by simp_all
    then have False by auto
    then show ?thesis ..
  next
    case (3 y y' ys')
    with "3.prems" have eq: "x @ [c] @ Join (x' # xs) [c] = y @ [c] @ Join (y' # ys') [c]"
      and cx: "c \<notin> set x" and cy: "c \<notin> set y"
      by simp_all
    from comma_split_unique [OF cx cy eq]
    have xy: "x = y" and j: "Join (x' # xs) [c] = Join (y' # ys') [c]"
      by simp_all
    have p1: "\<forall>x \<in> set (x' # xs). x \<noteq> [] \<and> c \<notin> set x"
      using "3.prems"(1) by simp
    have p2: "\<forall>y \<in> set (y' # ys'). y \<noteq> [] \<and> c \<notin> set y"
      using "3.prems"(2) 3 by simp
    have "x' # xs = y' # ys'"
      by (rule "3.IH"(2) [OF p1 p2 j])
    with xy 3 show ?thesis by simp
  qed
qed

lemma resync_eq:
  "resync cfg pass st =
     (if Join (aggregate (options cfg) (list_nodes pass)) '','' = Join (lastIPs st) '',''
      then \<lparr>lastIPs = lastIPs st,
            events = events st @ [LogResyncing] @
              (case list_err pass of Some err \<Rightarrow> [LogFailedToListNodes err] | None \<Rightarrow> []) @
              [LogIPs (aggregate (options cfg) (list_nodes pass)), LogNoChange]\<rparr>
      else \<lparr>lastIPs = aggregate (options cfg) (list_nodes pass),
            events = events st @ [LogResyncing] @
              (case list_err pass of Some err \<Rightarrow> [LogFailedToListNodes err] | None \<Rightarrow> []) @
              [LogIPs (aggregate (options cfg) (list_nodes pass)),
               CallSync (aggregate (options cfg) (list_nodes pass)) (dnsNames cfg) (dnsRoots cfg)
                 (cloudflareTTL cfg) (cloudflareProxy cfg)] @
              (case sync_err pass of Some err \<Rightarrow> [LogFailedToSync err] | None \<Rightarrow> [])\<rparr>)"
  by (simp add: resync_def emit_def Let_def split: option.splits)

lemma aggregate_no_nodes: "aggregate opts [] = []"
  by (simp add: aggregate_def gatherIPs_def)

lemma aggregate_one_external:
  "aggregate (options exampleConfig) [readyNode ''n1'' [externalAddr ''1.2.3.4'']] = [''1.2.3.4'']"
  by (simp add: aggregate_def gatherIPs_def nodeIsReady_def example_defs)

lemma aggregate_empty_address:
  "aggregate (options exampleConfig) [readyNode ''n1'' [externalAddr []]] = [[]]"
  by (simp add: aggregate_def gatherIPs_def nodeIsReady_def example_defs)

subsection \<open>Failure to list the nodes\<close>

text \<open>
  Claim C1 says that a pass whose node listing fails is abandoned and leaves the stored
  set unchanged. The code logs the failure and goes on with the slice the lister
  returned: after a pass that stored \<open>1.2.3.4\<close>, a pass whose listing fails with no
  nodes aggregates the empty list, stores it and calls \<open>sync\<close> with it.
\<close>

theorem C1_list_error_pass_continues:
  "run exampleConfig
     [\<lparr>list_nodes = [readyNode ''n1'' [externalAddr ''1.2.3.4'']],
       list_err = None, sync_err = None\<rparr>,
      \<lparr>list_nodes = [], list_err = Some ''list failed'', sync_err = None\<rparr>] initState =
   \<lparr>lastIPs = [],
    events =
      [LogResyncing, LogIPs [''1.2.3.4''],
       CallSync [''1.2.3.4''] [''nodes.example.com''] [''example.com''] 120 False,
       LogResyncing, LogFailedToListNodes ''list failed'', LogIPs [],
       CallSync [] [''nodes.example.com''] [''example.com''] 120 False]\<rparr>"
  by (simp add: resync_eq aggregate_no_nodes aggregate_one_external initState_def)
     (simp add: exampleConfig_def)

subsection \<open>Change detection\<close>

text \<open>
  Claim C3 as stated fails in two places. A desired list that differs from the stored
  one is not stored and not reconciled when the comma-joined strings coincide: from the
  start, a ready node whose external address is the empty string gives the list with
  one empty string, whose join is the join of the empty list. And two consecutive
  passes with the same desired set trigger no call at all when that set already equals
  the stored one, as two passes without nodes do from the start.
\<close>

theorem C3_differing_sets_not_reconciled:
  "aggregate (options exampleConfig) [readyNode ''n1'' [externalAddr []]] \<noteq> lastIPs initState \<and>
   resync exampleConfig
     \<lparr>list_nodes = [readyNode ''n1'' [externalAddr []]], list_err = None, sync_err = None\<rparr>
     initState =
   \<lparr>lastIPs = [], events = [LogResyncing, LogIPs [[]], LogNoChange]\<rparr> \<and>
   syncCalls (events (run exampleConfig
     [\<lparr>list_nodes = [], list_err = None, sync_err = None\<rparr>,
      \<lparr>list_nodes = [], list_err = None, sync_err = None\<rparr>] initState)) = []"
  by (simp add: resync_eq aggregate_no_nodes aggregate_empty_address initState_def)

text \<open>
  Claim C3, as amended. The step compares the comma-joined string of the new list with
  that of the stored one. If the joins are equal, in particular if the lists are equal,
  the pass leaves the stored list unchanged and does not call \<open>sync\<close>; if the joins
  differ, it stores the new list and calls \<open>sync\<close> with it. For lists of non-empty
  addresses without a comma the joins are equal exactly when the lists are. Two
  consecutive passes that yield the same desired list call \<open>sync\<close> once, in the first
  pass, when the join of that list differs from the join of the list stored before,
  and not at all otherwise.
\<close>

theorem C3_change_detection:
  assumes "aggregate (options cfg) (list_nodes pass) = ips"
  shows
    "(Join ips '','' = Join (lastIPs st) '','' \<longrightarrow>
        lastIPs (resync cfg pass st) = lastIPs st \<and>
        syncCalls (events (resync cfg pass st)) = syncCalls (events st)) \<and>
     (Join ips '','' \<noteq> Join (lastIPs st) '','' \<longrightarrow>
        lastIPs (resync cfg pass st) = ips \<and>
        syncCalls (events (resync cfg pass st)) = syncCalls (events st) @ [ips]) \<and>
     (ips = lastIPs st \<longrightarrow>
        lastIPs (resync cfg pass st) = lastIPs st \<and>
        syncCalls (events (resync cfg pass st)) = syncCalls (events st)) \<and>
     ((\<forall>a \<in> set ips \<union> set (lastIPs st). a \<noteq> [] \<and> CHR '','' \<notin> set a) \<longrightarrow>
        (Join ips '','' = Join (lastIPs st) '','') = (ips = lastIPs st)) \<and>
     (aggregate (options cfg) (list_nodes pass') = ips \<longrightarrow>
        syncCalls (events (run cfg [pass, pass'] st)) =
          syncCalls (events st) @
            (if Join ips '','' = Join (lastIPs st) '','' then [] else [ips]))"
proof (intro conjI impI)
  assume same: "Join ips '','' = Join (lastIPs st) '',''"
  then have j: "Join (aggregate (options cfg) (list_nodes pass)) '','' = Join (lastIPs st) '',''"
    using assms by simp
  show "lastIPs (resync cfg pass st) = lastIPs st"
    by (rule resync_unchanged(1) [OF j])
  show "syncCalls (events (resync cfg pass st)) = syncCalls (events st)"
    by (rule resync_unchanged(2) [OF j])
next
  assume "Join ips '','' \<noteq> Join (lastIPs st) '',''"
  then have j: "Join (aggregate (options cfg) (list_nodes pass)) '','' \<noteq> Join (lastIPs st) '',''"
    using assms by simp
  show "lastIPs (resync cfg pass st) = ips"
    using resync_changed(1) [OF j] assms by simp
  show "syncCalls (events (resync cfg pass st)) = syncCalls (events st) @ [ips]"
    using resync_changed(2) [OF j] assms by simp
next
  assume "ips = lastIPs st"
  then have j: "Join (aggregate (options cfg) (list_nodes pass)) '','' = Join (lastIPs st) '',''"
    using assms by simp
  show "lastIPs (resync cfg pass st) = lastIPs st"
    by (rule resync_unchanged(1) [OF j])
  show "syncCalls (events (resync cfg pass st)) = syncCalls (events st)"
    by (rule resync_unchanged(2) [OF j])
next
  assume clean: "\<forall>a \<in> set ips \<union> set (lastIPs st). a \<noteq> [] \<and> CHR '','' \<notin> set a"
  show "(Join ips '','' = Join (lastIPs st) '','') = (ips = lastIPs st)"
  proof
    assume "Join ips '','' = Join (lastIPs st) '',''"
    with clean show "ips = lastIPs st"
      by (intro Join_inject [of ips "CHR '',''" "lastIPs st"]) simp_all
  next
    assume "ips = lastIPs st"
    then show "Join ips '','' = Join (lastIPs st) '',''" by simp
  qed
next
  assume second: "aggregate (options cfg) (list_nodes pass') = ips"
  show "syncCalls (events (run cfg [pass, pass'] st)) =
          syncCalls (events st) @
            (if Join ips '','' = Join (lastIPs st) '','' then [] else [ips])"
  proof (cases "Join ips '','' = Join (lastIPs st) '',''")
    case True
    then have j: "Join (aggregate (options cfg) (list_nodes pass)) '','' = Join (lastIPs st) '',''"
      using assms by simp
    have j': "Join (aggregate (options cfg) (list_nodes pass')) '','' =
        Join (lastIPs (resync cfg pass st)) '',''"
      using True second resync_unchanged(1) [OF j] by simp
    show ?thesis
      using True resync_unchanged(2) [OF j] resync_unchanged(2) [OF j'] by simp
  next
    case False
    then have j: "Join (aggregate (options cfg) (list_nodes pass)) '','' \<noteq> Join (lastIPs st) '',''"
      using assms by simp
    have j': "Join (aggregate (options cfg) (list_nodes pass')) '','' =
        Join (lastIPs (resync cfg pass st)) '',''"
      using second assms resync_changed(1) [OF j] by simp
    show ?thesis
      using False resync_changed(2) [OF j] resync_unchanged(2) [OF j'] assms by simp
  qed
qed

theorem C3_change_detection_witness:
  "lastIPs (resync exampleConfig
     \<lparr>list_nodes = [readyNode ''n1'' [externalAddr ''1.2.3.4'']],
      list_err = None, sync_err = None\<rparr> initState) = [''1.2.3.4''] \<and>
   syncCalls (events (run exampleConfig
     [\<lparr>list_nodes = [readyNode ''n1'' [externalAddr ''1.2.3.4'']],
       list_err = None, sync_err = None\<rparr>,
      \<lparr>list_nodes = [readyNode ''n1'' [externalAddr ''1.2.3.4'']],
       list_err = None, sync_err = None\<rparr>] initState)) = [[''1.2.3.4'']]"
proof -
  have agg: "aggregate (options exampleConfig)
      (list_nodes \<lparr>list_nodes = [readyNode ''n1'' [externalAddr ''1.2.3.4'']],
         list_err = None, sync_err = None\<rparr>) = [''1.2.3.4'']"
    using aggregate_one_external by simp
  have differ: "Join [''1.2.3.4''] '','' \<noteq> Join (lastIPs initState) '',''"
    by (simp add: initState_def)
  note inst = C3_change_detection [OF agg, of initState]
  have a: "lastIPs (resync exampleConfig
     \<lparr>list_nodes = [readyNode ''n1'' [externalAddr ''1.2.3.4'']],
      list_err = None, sync_err = None\<rparr> initState) = [''1.2.3.4'']"
    using inst [THEN conjunct2, THEN conjunct1, THEN mp, OF differ] by (rule conjunct1)
  have b: "syncCalls (events (run exampleConfig
     [\<lparr>list_nodes = [readyNode ''n1'' [externalAddr ''1.2.3.4'']],
       list_err = None, sync_err = None\<rparr>,
      \<lparr>list_nodes = [readyNode ''n1'' [externalAddr ''1.2.3.4'']],
       list_err = None, sync_err = None\<rparr>] initState)) =
     syncCalls (events initState) @
       (if Join [''1.2.3.4''] '','' = Join (lastIPs initState) '','' then [] else [[''1.2.3.4'']])"
    using inst [THEN conjunct2, THEN conjunct2, THEN conjunct2, THEN conjunct2, THEN mp, OF agg] .
  from a b differ show ?thesis
    by (simp add: initState_def)
qed

subsection \<open>A failed reconciliation\<close>

text \<open>
  Claim C4 as stated fails: the first pass calls \<open>sync\<close>, which fails; the second
  pass aggregates the same desired set and is skipped as unchanged, so \<open>sync\<close> is not
  called again.
\<close>

theorem C4_failed_sync_not_retried:
  "run exampleConfig
     [\<lparr>list_nodes = [readyNode ''n1'' [externalAddr ''1.2.3.4'']],
       list_err = None, sync_err = Some ''provider error''\<rparr>,
      \<lparr>list_nodes = [readyNode ''n1'' [externalAddr ''1.2.3.4'']],
       list_err = None, sync_err = None\<rparr>] initState =
   \<lparr>lastIPs = [''1.2.3.4''],
    events =
      [LogResyncing, LogIPs [''1.2.3.4''],
       CallSync [''1.2.3.4''] [''nodes.example.com''] [''example.com''] 120 False,
       LogFailedToSync ''provider error'',
       LogResyncing, LogIPs [''1.2.3.4''], LogNoChange]\<rparr>"
  by (simp add: resync_eq aggregate_one_external initState_def)
     (simp add: exampleConfig_def)

text \<open>
  Claim C4, as amended. When \<open>sync\<close> fails during a pass, the failure is only
  logged: the stored list has already been replaced by the new desired list. A
  subsequent pass that aggregates the same desired list is skipped as unchanged and
  does not call \<open>sync\<close>; \<open>sync\<close> is called again only by a later pass whose desired
  list has a comma-join different from the stored one.
\<close>

theorem C4_failed_sync_suppressed:
  assumes "sync_err pass = Some err"
    and "Join (aggregate (options cfg) (list_nodes pass)) '','' \<noteq> Join (lastIPs st) '',''"
    and "aggregate (options cfg) (list_nodes pass') = aggregate (options cfg) (list_nodes pass)"
  shows
    "lastIPs (resync cfg pass st) = aggregate (options cfg) (list_nodes pass) \<and>
     syncCalls (events (resync cfg pass st)) =
       syncCalls (events st) @ [aggregate (options cfg) (list_nodes pass)] \<and>
     last (events (resync cfg pass st)) = LogFailedToSync err \<and>
     lastIPs (resync cfg pass' (resync cfg pass st)) =
       aggregate (options cfg) (list_nodes pass) \<and>
     syncCalls (events (resync cfg pass' (resync cfg pass st))) =
       syncCalls (events (resync cfg pass st)) \<and>
     last (events (resync cfg pass' (resync cfg pass st))) = LogNoChange \<and>
     (Join (aggregate (options cfg) (list_nodes pass'')) '','' \<noteq>
        Join (aggregate (options cfg) (list_nodes pass)) '','' \<longrightarrow>
      syncCalls (events (resync cfg pass'' (resync cfg pass st))) =
        syncCalls (events (resync cfg pass st)) @ [aggregate (options cfg) (list_nodes pass'')])"
proof -
  have stored: "lastIPs (resync cfg pass st) = aggregate (options cfg) (list_nodes pass)"
    by (rule resync_changed(1) [OF assms(2)])
  have calls: "syncCalls (events (resync cfg pass st)) =
       syncCalls (events st) @ [aggregate (options cfg) (list_nodes pass)]"
    by (rule resync_changed(2) [OF assms(2)])
  have failed: "last (events (resync cfg pass st)) = LogFailedToSync err"
    using assms(1,2) by (simp add: resync_eq)
  have same: "Join (aggregate (options cfg) (list_nodes pass')) '','' =
      Join (lastIPs (resync cfg pass st)) '',''"
    using assms(3) stored by simp
  have stored': "lastIPs (resync cfg pass' (resync cfg pass st)) =
       aggregate (options cfg) (list_nodes pass)"
    using resync_unchanged(1) [OF same] stored by simp
  have calls': "syncCalls (events (resync cfg pass' (resync cfg pass st))) =
       syncCalls (events (resync cfg pass st))"
    by (rule resync_unchanged(2) [OF same])
  have skipped: "last (events (resync cfg pass' (resync cfg pass st))) = LogNoChange"
    using resync_unchanged(3) [OF same] by simp
  have later: "Join (aggregate (options cfg) (list_nodes pass'')) '','' \<noteq>
        Join (aggregate (options cfg) (list_nodes pass)) '','' \<longrightarrow>
      syncCalls (events (resync cfg pass'' (resync cfg pass st))) =
        syncCalls (events (resync cfg pass st)) @ [aggregate (options cfg) (list_nodes pass'')]"
  proof
    assume "Join (aggregate (options cfg) (list_nodes pass'')) '','' \<noteq>
        Join (aggregate (options cfg) (list_nodes pass)) '',''"
    then have "Join (aggregate (options cfg) (list_nodes pass'')) '','' \<noteq>
        Join (lastIPs (resync cfg pass st)) '',''"
      using stored by simp
    then show "syncCalls (events (resync cfg pass'' (resync cfg pass st))) =
        syncCalls (events (resync cfg pass st)) @ [aggregate (options cfg) (list_nodes pass'')]"
      by (rule resync_changed(2))
  qed
  from stored calls failed stored' calls' skipped later show ?thesis
    by (intro conjI)
qed

theorem C4_failed_sync_suppressed_witness:
  "lastIPs (resync exampleConfig
     \<lparr>list_nodes = [readyNode ''n1'' [externalAddr ''1.2.3.4'']],
      list_err = None, sync_err = Some ''provider error''\<rparr> initState) = [''1.2.3.4''] \<and>
   syncCalls (events (resync exampleConfig
     \<lparr>list_nodes = [readyNode ''n1'' [externalAddr ''1.2.3.4'']],
      list_err = None, sync_err = None\<rparr>
     (resync exampleConfig
       \<lparr>list_nodes = [readyNode ''n1'' [externalAddr ''1.2.3.4'']],
        list_err = None, sync_err = Some ''provider error''\<rparr> initState))) = [[''1.2.3.4'']] \<and>
   last (events (resync exampleConfig
     \<lparr>list_nodes = [readyNode ''n1'' [externalAddr ''1.2.3.4'']],
      list_err = None, sync_err = None\<rparr>
     (resync exampleConfig
       \<lparr>list_nodes = [readyNode ''n1'' [externalAddr ''1.2.3.4'']],
        list_err = None, sync_err = Some ''provider error''\<rparr> initState))) = LogNoChange"
proof -
  have failing: "sync_err \<lparr>list_nodes = [readyNode ''n1'' [externalAddr ''1.2.3.4'']],
      list_err = None, sync_err = Some ''provider error''\<rparr> = Some ''provider error''"
    by simp
  have differ: "Join (aggregate (options exampleConfig)
      (list_nodes \<lparr>list_nodes = [readyNode ''n1'' [externalAddr ''1.2.3.4'']],
         list_err = None, sync_err = Some ''provider error''\<rparr>)) '','' \<noteq>
      Join (lastIPs initState) '',''"
    using aggregate_one_external by (simp add: initState_def)
  have same: "aggregate (options exampleConfig)
      (list_nodes \<lparr>list_nodes = [readyNode ''n1'' [externalAddr ''1.2.3.4'']],
         list_err = None, sync_err = None\<rparr>) =
     aggregate (options exampleConfig)
      (list_nodes \<lparr>list_nodes = [readyNode ''n1'' [externalAddr ''1.2.3.4'']],
         list_err = None, sync_err = Some ''provider error''\<rparr>)"
    by simp
  from C4_failed_sync_suppressed [OF failing differ same]
  show ?thesis
    using aggregate_one_external by (simp add: initState_def)
qed

subsection \<open>Comparison by joined strings\<close>

lemma aggregate_comma_address:
  "aggregate (options exampleConfig) [readyNode ''n1'' [externalAddr ''a,b'']] = [''a,b'']"
  by (simp add: aggregate_def gatherIPs_def nodeIsReady_def example_defs)

lemma aggregate_two_addresses:
  "aggregate (options exampleConfig)
     [readyNode ''n1'' [externalAddr ''a'', externalAddr ''b'']] = [''a'', ''b'']"
  by (simp add: aggregate_def gatherIPs_def nodeIsReady_def example_defs)

text \<open>
  Claim C10. A pass is suppressed exactly when the comma-joined string of the new
  address list equals that of the stored list, not when the lists are equal: the
  distinct lists \<open>[a,b]\<close> (one address) and \<open>[a, b]\<close> (two addresses) have the
  same join, and a pass that aggregates the second after the first was stored is
  logged as unchanged, keeps the first stored and does not call \<open>sync\<close>.
\<close>

theorem C10_comparison_by_comma_join:
  "(syncCalls (events (resync cfg pass st)) = syncCalls (events st)) =
     (Join (aggregate (options cfg) (list_nodes pass)) '','' = Join (lastIPs st) '','') \<and>
   (lastIPs (resync cfg pass st) =
     (if Join (aggregate (options cfg) (list_nodes pass)) '','' = Join (lastIPs st) '',''
      then lastIPs st else aggregate (options cfg) (list_nodes pass))) \<and>
   [''a,b''] \<noteq> [''a'', ''b''] \<and>
   Join [''a,b''] '','' = Join [''a'', ''b''] '','' \<and>
   aggregate (options exampleConfig) [readyNode ''n1'' [externalAddr ''a,b'']] = [''a,b''] \<and>
   aggregate (options exampleConfig)
     [readyNode ''n1'' [externalAddr ''a'', externalAddr ''b'']] = [''a'', ''b''] \<and>
   run exampleConfig
     [\<lparr>list_nodes = [readyNode ''n1'' [externalAddr ''a,b'']],
       list_err = None, sync_err = None\<rparr>,
      \<lparr>list_nodes = [readyNode ''n1'' [externalAddr ''a'', externalAddr ''b'']],
       list_err = None, sync_err = None\<rparr>] initState =
   \<lparr>lastIPs = [''a,b''],
    events =
      [LogResyncing, LogIPs [''a,b''],
       CallSync [''a,b''] [''nodes.example.com''] [''example.com''] 120 False,
       LogResyncing, LogIPs [''a'', ''b''], LogNoChange]\<rparr>"
proof (intro conjI)
  show "(syncCalls (events (resync cfg pass st)) = syncCalls (events st)) =
     (Join (aggregate (options cfg) (list_nodes pass)) '','' = Join (lastIPs st) '','')"
    by (simp add: resync_eq syncCalls_append split: option.splits)
  show "lastIPs (resync cfg pass st) =
     (if Join (aggregate (options cfg) (list_nodes pass)) '','' = Join (lastIPs st) '',''
      then lastIPs st else aggregate (options cfg) (list_nodes pass))"
    by (simp add: resync_eq)
  show "[''a,b''] \<noteq> [''a'', ''b'']" by simp
  show "Join [''a,b''] '','' = Join [''a'', ''b''] '',''" by simp
  show "aggregate (options exampleConfig) [readyNode ''n1'' [externalAddr ''a,b'']] = [''a,b'']"
    by (rule aggregate_comma_address)
  show "aggregate (options exampleConfig)
     [readyNode ''n1'' [externalAddr ''a'', externalAddr ''b'']] = [''a'', ''b'']"
    by (rule aggregate_two_addresses)
  show "run exampleConfig
     [\<lparr>list_nodes = [readyNode ''n1'' [externalAddr ''a,b'']],
       list_err = None, sync_err = None\<rparr>,
      \<lparr>list_nodes = [readyNode ''n1'' [externalAddr ''a'', externalAddr ''b'']],
       list_err = None, sync_err = None\<rparr>] initState =
   \<lparr>lastIPs = [''a,b''],
    events =
      [LogResyncing, LogIPs [''a,b''],
       CallSync [''a,b''] [''nodes.example.com''] [''example.com''] 120 False,
       LogResyncing, LogIPs [''a'', ''b''], LogNoChange]\<rparr>"
    by (simp add: resync_eq aggregate_comma_address aggregate_two_addresses initState_def)
       (simp add: exampleConfig_def)
qed

subsection \<open>The reconciliation plan for one name\<close>

text \<open>
  Claim C8. For a configured name, the plan creates the desired addresses that no
  existing record holds, deletes the existing records whose content is not desired,
  updates the records present on both sides whose ttl or proxy flag differs from the
  configuration, and lists the deletes first, then the creates, then the updates;
  removing the deleted contents and adding the created ones leaves exactly the desired
  set. Desired 1.2.3.4 and 5.6.7.8 against existing records 9.9.9.9 and 1.2.3.4 (with
  the configured ttl and proxy flag) yields exactly the deletion of 9.9.9.9 and the
  creation of 5.6.7.8.
\<close>

theorem C8_reconcile_plan:
  "set (toCreate desiredSet existing) = set desiredSet - set (map rec_Content existing) \<and>
   set (toDelete desiredSet existing) =
     {r \<in> set existing. rec_Content r \<notin> set desiredSet} \<and>
   set (toUpdate desiredSet existing ttl proxied) =
     {r \<in> set existing. rec_Content r \<in> set desiredSet \<and>
        (rec_TTL r \<noteq> ttl \<or> rec_Proxied r \<noteq> proxied)} \<and>
   reconcilePlan zone name desiredSet existing ttl proxied =
     map (\<lambda>r. DeleteRecord zone (rec_ID r)) (toDelete desiredSet existing) @
     map (\<lambda>a. CreateRecord zone name a ttl proxied) (toCreate desiredSet existing) @
     map (\<lambda>r. UpdateRecord zone (rec_ID r) (rec_Content r) ttl proxied)
       (toUpdate desiredSet existing ttl proxied) \<and>
   (set (map rec_Content existing) - set (map rec_Content (toDelete desiredSet existing))) \<union>
     set (toCreate desiredSet existing) = set desiredSet \<and>
   reconcilePlan ''example.com'' ''nodes.example.com'' [''1.2.3.4'', ''5.6.7.8'']
     [\<lparr>rec_ID = ''r1'', rec_Name = ''nodes.example.com'', rec_Content = ''9.9.9.9'',
       rec_TTL = ttl, rec_Proxied = proxied\<rparr>,
      \<lparr>rec_ID = ''r2'', rec_Name = ''nodes.example.com'', rec_Content = ''1.2.3.4'',
       rec_TTL = ttl, rec_Proxied = proxied\<rparr>] ttl proxied =
     [DeleteRecord ''example.com'' ''r1'',
      CreateRecord ''example.com'' ''nodes.example.com'' ''5.6.7.8'' ttl proxied]"
proof (intro conjI)
  show "set (toCreate desiredSet existing) = set desiredSet - set (map rec_Content existing)"
    by (auto simp: toCreate_def)
  show "set (toDelete desiredSet existing) =
     {r \<in> set existing. rec_Content r \<notin> set desiredSet}"
    by (auto simp: toDelete_def)
  show "set (toUpdate desiredSet existing ttl proxied) =
     {r \<in> set existing. rec_Content r \<in> set desiredSet \<and>
        (rec_TTL r \<noteq> ttl \<or> rec_Proxied r \<noteq> proxied)}"
    by (auto simp: toUpdate_def)
  show "reconcilePlan zone name desiredSet existing ttl proxied =
     map (\<lambda>r. DeleteRecord zone (rec_ID r)) (toDelete desiredSet existing) @
     map (\<lambda>a. CreateRecord zone name a ttl proxied) (toCreate desiredSet existing) @
     map (\<lambda>r. UpdateRecord zone (rec_ID r) (rec_Content r) ttl proxied)
       (toUpdate desiredSet existing ttl proxied)"
    by (simp add: reconcilePlan_def)
  show "(set (map rec_Content existing) - set (map rec_Content (toDelete desiredSet existing))) \<union>
     set (toCreate desiredSet existing) = set desiredSet"
    by (auto simp: toCreate_def toDelete_def)
  show "reconcilePlan ''example.com'' ''nodes.example.com'' [''1.2.3.4'', ''5.6.7.8'']
     [\<lparr>rec_ID = ''r1'', rec_Name = ''nodes.example.com'', rec_Content = ''9.9.9.9'',
       rec_TTL = ttl, rec_Proxied = proxied\<rparr>,
      \<lparr>rec_ID = ''r2'', rec_Name = ''nodes.example.com'', rec_Content = ''1.2.3.4'',
       rec_TTL = ttl, rec_Proxied = proxied\<rparr>] ttl proxied =
     [DeleteRecord ''example.com'' ''r1'',
      CreateRecord ''example.com'' ''nodes.example.com'' ''5.6.7.8'' ttl proxied]"
    by (simp add: reconcilePlan_def toCreate_def toDelete_def toUpdate_def)
qed

theorem C8_reconcile_plan_witness:
  "set (toUpdate [''1.2.3.4'']
     [\<lparr>rec_ID = ''r2'', rec_Name = ''nodes.example.com'', rec_Content = ''1.2.3.4'',
       rec_TTL = 300, rec_Proxied = False\<rparr>] 120 False) =
   {\<lparr>rec_ID = ''r2'', rec_Name = ''nodes.example.com'', rec_Content = ''1.2.3.4'',
       rec_TTL = 300, rec_Proxied = False\<rparr>} \<and>
   reconcilePlan ''example.com'' ''nodes.example.com'' [''1.2.3.4'']
     [\<lparr>rec_ID = ''r2'', rec_Name = ''nodes.example.com'', rec_Content = ''1.2.3.4'',
       rec_TTL = 300, rec_Proxied = False\<rparr>] 120 False =
   [UpdateRecord ''example.com'' ''r2'' ''1.2.3.4'' 120 False]"
  using C8_reconcile_plan [of "[''1.2.3.4'']"
     "[\<lparr>rec_ID = ''r2'', rec_Name = ''nodes.example.com'', rec_Content = ''1.2.3.4'',
       rec_TTL = 300, rec_Proxied = False\<rparr>]" 120 False "''example.com''" "''nodes.example.com''"]
  by (simp add: toCreate_def toDelete_def toUpdate_def)

end
